theory Spec2Isabelle
  imports Main "HOL-Library.Sublist"
begin

section \<open>Render instrumentation registry (components/RenderCounter.tsx)\<close>

text \<open>
  The module-level store \<^verbatim>\<open>const renderCounts = new Map<string, number>()\<close> maps the
  identity returned by \<^verbatim>\<open>useId()\<close> to a number. The counts are whole numbers far below
  the range where a JavaScript number stops being exact, so they are modelled as \<open>int\<close>.
  The store is mutated in place by the source; the model passes it explicitly and returns
  the updated store beside the displayed count.
\<close>

type_synonym renderCounts = "string \<rightharpoonup> int"

definition renderCounts_init :: renderCounts where
  "renderCounts_init = Map.empty"

text \<open>
  \<^verbatim>\<open>const currentCount = (renderCounts.get(id) ?? 0) + 1; renderCounts.set(id, currentCount);\<close>
  The first argument is the value of \<^verbatim>\<open>useId()\<close>; the first component of the result is
  the count rendered into the markup.
\<close>

definition RenderCounter :: "string \<Rightarrow> renderCounts \<Rightarrow> int \<times> renderCounts" where
  "RenderCounter ident m =
     (let currentCount = (case m ident of None \<Rightarrow> 0 | Some c \<Rightarrow> c) + 1
      in (currentCount, m(ident \<mapsto> currentCount)))"

definition InlineRenderCounter :: "string \<Rightarrow> renderCounts \<Rightarrow> int \<times> renderCounts" where
  "InlineRenderCounter ident m =
     (let currentCount = (case m ident of None \<Rightarrow> 0 | Some c \<Rightarrow> c) + 1
      in (currentCount, m(ident \<mapsto> currentCount)))"

text \<open>
  One render of a counter component: which of the two components it is, and the identity
  the framework gave the mounted instance.
\<close>

datatype render = Render string | RenderInline string

fun render_id :: "render \<Rightarrow> string" where
  "render_id (Render ident) = ident"
| "render_id (RenderInline ident) = ident"

fun render_step :: "render \<Rightarrow> renderCounts \<Rightarrow> int \<times> renderCounts" where
  "render_step (Render ident) m = RenderCounter ident m"
| "render_step (RenderInline ident) m = InlineRenderCounter ident m"

text \<open>
  A sequence of renders, in the order the single-threaded renderer performs them. The
  result is the trace of (identity, displayed count) pairs and the final store.
\<close>

fun renders :: "render list \<Rightarrow> renderCounts \<Rightarrow> (string \<times> int) list \<times> renderCounts" where
  "renders [] m = ([], m)"
| "renders (r # rs) m =
     (let (c, m') = render_step r m;
          (tr, m'') = renders rs m'
      in ((render_id r, c) # tr, m''))"

text \<open>The counts displayed to the unit with identity \<open>i\<close>, in order.\<close>

definition shown :: "string \<Rightarrow> (string \<times> int) list \<Rightarrow> int list" where
  "shown i tr = map snd (filter (\<lambda>p. fst p = i) tr)"

definition renders_of :: "string \<Rightarrow> render list \<Rightarrow> nat" where
  "renders_of i rs = length (filter (\<lambda>r. render_id r = i) rs)"

text \<open>The count stored for an identity, read the way the source reads it.\<close>

definition stored :: "renderCounts \<Rightarrow> string \<Rightarrow> int" where
  "stored m i = (case m i of None \<Rightarrow> 0 | Some c \<Rightarrow> c)"

section \<open>Theme context (context/ThemeContext.tsx)\<close>

text \<open>
  \<^verbatim>\<open>type Theme = 'light' | 'dark'\<close> (types/index.ts), with the string each value is at
  run time, and the key under which the preference is stored.
\<close>

datatype Theme = Light | Dark

fun theme_string :: "Theme \<Rightarrow> string" where
  "theme_string Light = ''light''"
| "theme_string Dark = ''dark''"

definition THEME_STORAGE_KEY :: string where
  "THEME_STORAGE_KEY = ''reacthookstudio-theme''"

text \<open>
  The browser's \<^verbatim>\<open>localStorage\<close> as a map from keys to strings (\<^verbatim>\<open>getItem\<close> gives
  \<^verbatim>\<open>null\<close>, here \<open>None\<close>, for an absent key). The global environment is either without
  a \<^verbatim>\<open>window\<close>, or a window with its storage and the answer of
  \<^verbatim>\<open>window.matchMedia('(prefers-color-scheme: dark)').matches\<close>.
\<close>

type_synonym storage = "string \<rightharpoonup> string"

datatype global = NoWindow | Window storage bool

fun getInitialTheme :: "global \<Rightarrow> Theme" where
  "getInitialTheme NoWindow = Light"
| "getInitialTheme (Window localStorage prefersDark) =
     (let storedTheme = localStorage THEME_STORAGE_KEY in
      if storedTheme = Some ''light'' then Light
      else if storedTheme = Some ''dark'' then Dark
      else if prefersDark then Dark else Light)"

text \<open>
  What \<^verbatim>\<open>ThemeProvider\<close> holds and touches: its \<^verbatim>\<open>theme\<close> state, the storage, and
  the class list of the document's root element.
\<close>

record ThemeProvider_state =
  themeState :: Theme
  localStorage :: storage
  classList :: "string set"

text \<open>
  The body of the effect with dependency list \<^verbatim>\<open>[theme]\<close>:
  \<^verbatim>\<open>root.classList.remove('light', 'dark'); root.classList.add(theme);
  localStorage.setItem(THEME_STORAGE_KEY, theme)\<close>.
\<close>

definition theme_effect :: "ThemeProvider_state \<Rightarrow> ThemeProvider_state" where
  "theme_effect s =
     s\<lparr>classList := insert (theme_string (themeState s)) (classList s - {''light'', ''dark''}),
       localStorage := (localStorage s)(THEME_STORAGE_KEY \<mapsto> theme_string (themeState s))\<rparr>"

text \<open>
  \<^verbatim>\<open>setThemeState(update)\<close> followed by the commit it causes: the updater is applied to
  the previous state, and the effect runs again exactly when its dependency \<^verbatim>\<open>theme\<close>
  has changed. Mounting initialises the state with \<^verbatim>\<open>getInitialTheme\<close> and runs the
  effect once.
\<close>

definition setThemeState :: "(Theme \<Rightarrow> Theme) \<Rightarrow> ThemeProvider_state \<Rightarrow> ThemeProvider_state" where
  "setThemeState update s =
     (let next = update (themeState s) in
      if next = themeState s then s else theme_effect (s\<lparr>themeState := next\<rparr>))"

definition ThemeProvider_mount :: "storage \<Rightarrow> bool \<Rightarrow> string set \<Rightarrow> ThemeProvider_state" where
  "ThemeProvider_mount ls prefersDark classes =
     theme_effect \<lparr>themeState = getInitialTheme (Window ls prefersDark),
                   localStorage = ls, classList = classes\<rparr>"

text \<open>The two callbacks \<^verbatim>\<open>toggleTheme\<close> and \<^verbatim>\<open>setTheme\<close> of the provider.\<close>

definition ThemeProvider_toggleTheme :: "ThemeProvider_state \<Rightarrow> ThemeProvider_state" where
  "ThemeProvider_toggleTheme = setThemeState (\<lambda>prev. if prev = Light then Dark else Light)"

definition ThemeProvider_setTheme :: "Theme \<Rightarrow> ThemeProvider_state \<Rightarrow> ThemeProvider_state" where
  "ThemeProvider_setTheme newTheme = setThemeState (\<lambda>prev. newTheme)"

text \<open>
  The listener for changes of the system preference: \<^verbatim>\<open>if (!storedTheme)\<close> holds for
  \<^verbatim>\<open>null\<close> and for the empty string.
\<close>

definition falsy :: "string option \<Rightarrow> bool" where
  "falsy v \<longleftrightarrow> v = None \<or> v = Some []"

definition handleChange :: "bool \<Rightarrow> ThemeProvider_state \<Rightarrow> ThemeProvider_state" where
  "handleChange matches s =
     (let storedTheme = localStorage s THEME_STORAGE_KEY in
      if falsy storedTheme then setThemeState (\<lambda>prev. if matches then Dark else Light) s
      else s)"

text \<open>The events a mounted provider reacts to, and a run of them.\<close>

datatype ThemeOp = ToggleTheme | SetTheme Theme | SystemChange bool

fun theme_op :: "ThemeProvider_state \<Rightarrow> ThemeOp \<Rightarrow> ThemeProvider_state" where
  "theme_op s ToggleTheme = ThemeProvider_toggleTheme s"
| "theme_op s (SetTheme t) = ThemeProvider_setTheme t s"
| "theme_op s (SystemChange matches) = handleChange matches s"

definition theme_ops :: "ThemeProvider_state \<Rightarrow> ThemeOp list \<Rightarrow> ThemeProvider_state" where
  "theme_ops s ops = foldl theme_op s ops"

section \<open>Context accessors\<close>

text \<open>
  \<^verbatim>\<open>interface ThemeContextValue { theme; toggleTheme; setTheme }\<close> and the value a
  \<^verbatim>\<open>ThemeProvider\<close> passes to \<^verbatim>\<open>ThemeContext.Provider\<close>.
\<close>

record ThemeContextValue =
  theme :: Theme
  toggleTheme :: "ThemeProvider_state \<Rightarrow> ThemeProvider_state"
  setTheme :: "Theme \<Rightarrow> ThemeProvider_state \<Rightarrow> ThemeProvider_state"

definition ThemeProvider_value :: "ThemeProvider_state \<Rightarrow> ThemeContextValue" where
  "ThemeProvider_value s =
     \<lparr>theme = themeState s, toggleTheme = ThemeProvider_toggleTheme,
      setTheme = ThemeProvider_setTheme\<rparr>"

text \<open>
  \<^verbatim>\<open>useContext(C)\<close>: the value of the nearest enclosing provider of the context, or the
  default given to \<^verbatim>\<open>createContext\<close> when there is none. The second argument lists the
  values of the enclosing providers, nearest first.
\<close>

definition useContext :: "'v \<Rightarrow> 'v list \<Rightarrow> 'v" where
  "useContext defaultValue providers =
     (case providers of [] \<Rightarrow> defaultValue | v # outer \<Rightarrow> v)"

definition ThemeContext_default :: "ThemeContextValue option" where
  "ThemeContext_default = None"

text \<open>A thrown \<^verbatim>\<open>Error\<close> with its message; a throwing hook returns \<open>Inl\<close>.\<close>

datatype error = Error string

definition useTheme :: "ThemeContextValue option list \<Rightarrow> error + ThemeContextValue" where
  "useTheme providers =
     (let context = useContext ThemeContext_default providers in
      case context of
        None \<Rightarrow> Inl (Error ''useTheme must be used within a ThemeProvider'')
      | Some c \<Rightarrow> Inr c)"

text \<open>The provider values seen by a unit rendered inside the given \<^verbatim>\<open>ThemeProvider\<close>s.\<close>

definition inside_ThemeProviders :: "ThemeProvider_state list \<Rightarrow> ThemeContextValue option list" where
  "inside_ThemeProviders enclosing = map (\<lambda>s. Some (ThemeProvider_value s)) enclosing"

text \<open>
  The accessor of the context demo (hooks/useContextPlayground.tsx), on a context whose
  default is \<^verbatim>\<open>null\<close>; \<^verbatim>\<open>!context\<close> holds for \<^verbatim>\<open>null\<close> only, a provided value being an
  object.
\<close>

datatype Role = Admin | User | Guest

record UserContextValue =
  name :: string
  email :: string
  role :: Role

definition ExampleUserContext_default :: "UserContextValue option" where
  "ExampleUserContext_default = None"

definition useExampleUser :: "UserContextValue option list \<Rightarrow> error + UserContextValue" where
  "useExampleUser providers =
     (let context = useContext ExampleUserContext_default providers in
      case context of
        None \<Rightarrow> Inl (Error ''useExampleUser must be used within ExampleUserProvider'')
      | Some c \<Rightarrow> Inr c)"

text \<open>
  The theme an operation sets, given the theme before it. An event of the system
  preference sets nothing while a preference is stored.
\<close>

fun requested :: "Theme \<Rightarrow> ThemeOp \<Rightarrow> Theme" where
  "requested prev ToggleTheme = (if prev = Light then Dark else Light)"
| "requested prev (SetTheme t) = t"
| "requested prev (SystemChange matches) = prev"

text \<open>The storage key holds the string of the current theme.\<close>

definition persisted :: "ThemeProvider_state \<Rightarrow> bool" where
  "persisted s \<longleftrightarrow> localStorage s THEME_STORAGE_KEY = Some (theme_string (themeState s))"

section \<open>Navigation (router.tsx, data/hooks.ts)\<close>














section \<open>Timer demo (hooks/useEffectPlayground.tsx)\<close>

text \<open>
  The part of \<^verbatim>\<open>UseEffectPlayground\<close> that drives the timer: the states \<^verbatim>\<open>seconds\<close>
  and \<^verbatim>\<open>isRunning\<close>, the variable \<^verbatim>\<open>interval\<close> captured by the cleanup function of the
  last run of the timer effect, and the browser's side: the handles of the intervals of
  this component that are still scheduled, and the handle \<^verbatim>\<open>setInterval\<close> returns next.
  \<^verbatim>\<open>seconds\<close> starts at 0 and is only reset or incremented, so it is a \<open>nat\<close>.
\<close>

record Timer_state =
  seconds :: nat
  isRunning :: bool
  interval :: "nat option"
  timers :: "nat set"
  nextHandle :: nat
  mounted :: bool

text \<open>
  \<^verbatim>\<open>setInterval(callback, 1000)\<close> schedules the callback and returns a fresh handle;
  \<^verbatim>\<open>clearInterval(h)\<close> removes the schedule. Every interval of this component has the
  same callback, \<^verbatim>\<open>setSeconds((prev) => prev + 1)\<close>.
\<close>

definition setInterval :: "Timer_state \<Rightarrow> nat \<times> Timer_state" where
  "setInterval s =
     (nextHandle s, s\<lparr>timers := insert (nextHandle s) (timers s), nextHandle := nextHandle s + 1\<rparr>)"

definition clearInterval :: "nat \<Rightarrow> Timer_state \<Rightarrow> Timer_state" where
  "clearInterval h s = s\<lparr>timers := timers s - {h}\<rparr>"

text \<open>
  The timer effect (dependency list \<^verbatim>\<open>[isRunning]\<close>) and the cleanup function it
  returns. \<^verbatim>\<open>if (interval)\<close> fails for \<^verbatim>\<open>null\<close> and for the handle 0.
\<close>

definition timer_effect :: "Timer_state \<Rightarrow> Timer_state" where
  "timer_effect s =
     (if isRunning s then
        (let (h, s') = setInterval s in s'\<lparr>interval := Some h\<rparr>)
      else s\<lparr>interval := None\<rparr>)"

definition timer_cleanup :: "Timer_state \<Rightarrow> Timer_state" where
  "timer_cleanup s =
     (case interval s of
        None \<Rightarrow> s
      | Some h \<Rightarrow> if h \<noteq> 0 then clearInterval h s else s)"

text \<open>
  The commit after a state update, as the framework performs it: when the dependency
  \<^verbatim>\<open>isRunning\<close> has changed, the cleanup of the previous run and then the effect run;
  otherwise neither. Mounting runs the effect once.
\<close>

definition commit :: "bool \<Rightarrow> Timer_state \<Rightarrow> Timer_state" where
  "commit wasRunning s =
     (if isRunning s \<noteq> wasRunning then timer_effect (timer_cleanup s) else s)"

definition mount :: "nat \<Rightarrow> Timer_state" where
  "mount h0 =
     timer_effect \<lparr>seconds = 0, isRunning = False, interval = None, timers = {},
                   nextHandle = h0, mounted = True\<rparr>"

text \<open>
  What can happen to the mounted component: a click on Start/Stop
  (\<^verbatim>\<open>setIsRunning((prev) => !prev)\<close>), a click on Reset (\<^verbatim>\<open>resetTimer\<close>), the browser
  firing the interval with a given handle (which it does only while that handle is
  scheduled), and the teardown of the component, which runs the cleanup.
\<close>

datatype Timer_event = ClickStartStop | ClickReset | Tick nat | Unmount

fun timer_step :: "Timer_state \<Rightarrow> Timer_event \<Rightarrow> Timer_state" where
  "timer_step s ClickStartStop =
     (if mounted s then commit (isRunning s) (s\<lparr>isRunning := \<not> isRunning s\<rparr>) else s)"
| "timer_step s ClickReset =
     (if mounted s then commit (isRunning s) (s\<lparr>seconds := 0, isRunning := False\<rparr>) else s)"
| "timer_step s (Tick h) =
     (if h \<in> timers s then s\<lparr>seconds := seconds s + 1\<rparr> else s)"
| "timer_step s Unmount =
     (if mounted s then (timer_cleanup s)\<lparr>mounted := False\<rparr> else s)"

definition timer_run :: "Timer_state \<Rightarrow> Timer_event list \<Rightarrow> Timer_state" where
  "timer_run s evs = foldl timer_step s evs"

text \<open>
  The display: \<^verbatim>\<open>String(Math.floor(seconds / 60)).padStart(2, '0')\<close>, a colon, and
  \<^verbatim>\<open>String(seconds % 60).padStart(2, '0')\<close>. \<open>String\<close> writes a natural number in
  decimal.
\<close>

definition digit :: "nat \<Rightarrow> char" where
  "digit n = ''0123456789'' ! n"

fun String :: "nat \<Rightarrow> string" where
  "String n = (if n < 10 then [digit n] else String (n div 10) @ [digit (n mod 10)])"

definition padStart :: "nat \<Rightarrow> char \<Rightarrow> string \<Rightarrow> string" where
  "padStart targetLength c str = replicate (targetLength - length str) c @ str"

definition display :: "Timer_state \<Rightarrow> string" where
  "display s =
     padStart 2 (CHR ''0'') (String (seconds s div 60)) @ '':''
       @ padStart 2 (CHR ''0'') (String (seconds s mod 60))"

text \<open>
  The invariant of the timer: an interval is scheduled exactly while the component is
  mounted and running, and it is the one the pending cleanup will clear.
\<close>

definition scheduled :: "Timer_state \<Rightarrow> bool" where
  "scheduled s \<longleftrightarrow>
     0 < nextHandle s \<and>
     (if mounted s \<and> isRunning s
      then (case interval s of None \<Rightarrow> False | Some h \<Rightarrow> 0 < h \<and> timers s = {h})
      else timers s = {})"

text \<open>Zero-padded minutes and seconds of an elapsed time.\<close>

definition formatted :: "nat \<Rightarrow> string" where
  "formatted n =
     padStart 2 (CHR ''0'') (String (n div 60)) @ '':'' @ padStart 2 (CHR ''0'') (String (n mod 60))"

section \<open>Counter reducer (hooks/useReducerPlayground.tsx)\<close>

text \<open>
  \<^verbatim>\<open>interface CounterState { count: number; history: number[] }\<close> and
  \<^verbatim>\<open>interface CounterAction { type: ...; payload?: number }\<close> (types/index.ts). The
  numbers are whole numbers, modelled as \<open>int\<close>. The tag is kept as the string the
  \<^verbatim>\<open>switch\<close> compares, so that the \<^verbatim>\<open>default\<close> branch is part of the model; an absent
  payload is \<open>None\<close>.
\<close>

record CounterState =
  count :: int
  history :: "int list"

record CounterAction =
  type :: string
  payload :: "int option"

definition initialState :: CounterState where
  "initialState = \<lparr>count = 0, history = []\<rparr>"

text \<open>The nullish-coalescing operator \<^verbatim>\<open>v ?? d\<close>.\<close>

definition nullish :: "'a option \<Rightarrow> 'a \<Rightarrow> 'a" where
  "nullish v d = (case v of None \<Rightarrow> d | Some x \<Rightarrow> x)"

text \<open>The reducer: the \<^verbatim>\<open>switch (action.type)\<close> with its four cases and its default.\<close>

definition counterReducer :: "CounterState \<Rightarrow> CounterAction \<Rightarrow> CounterState" where
  "counterReducer state action =
     (if type action = ''INCREMENT'' then
        \<lparr>count = count state + 1, history = history state @ [count state + 1]\<rparr>
      else if type action = ''DECREMENT'' then
        \<lparr>count = count state - 1, history = history state @ [count state - 1]\<rparr>
      else if type action = ''RESET'' then initialState
      else if type action = ''SET'' then
        \<lparr>count = nullish (payload action) 0,
         history = history state @ [nullish (payload action) 0]\<rparr>
      else state)"

text \<open>
  \<^verbatim>\<open>useReducer(counterReducer, initialState)\<close>: the state after a sequence of dispatched
  actions.
\<close>

definition dispatch_all :: "CounterAction list \<Rightarrow> CounterState" where
  "dispatch_all actions = foldl counterReducer initialState actions"

text \<open>
  The number of updates a sequence of actions asks the history to record: the
  INCREMENT, DECREMENT and SET actions since the last RESET (or since the start).
\<close>

definition records_update :: "CounterAction \<Rightarrow> bool" where
  "records_update a \<longleftrightarrow> type a = ''INCREMENT'' \<or> type a = ''DECREMENT'' \<or> type a = ''SET''"

definition count_update :: "nat \<Rightarrow> CounterAction \<Rightarrow> nat" where
  "count_update n a =
     (if type a = ''RESET'' then 0 else if records_update a then Suc n else n)"

definition updates_since_reset :: "CounterAction list \<Rightarrow> nat" where
  "updates_since_reset actions = foldl count_update 0 actions"

text \<open>An empty history goes with the count 0; otherwise the last entry is the count.\<close>

definition history_tracks_count :: "CounterState \<Rightarrow> bool" where
  "history_tracks_count s \<longleftrightarrow>
     (if history s = [] then count s = 0 else last (history s) = count s)"

section \<open>Todo reducer (hooks/useReducerPlayground.tsx)\<close>

text \<open>
  \<^verbatim>\<open>interface Todo { id: number; text: string; completed: boolean }\<close> and
  \<^verbatim>\<open>interface TodoState { todos: Todo[]; nextId: number }\<close>. The fields \<^verbatim>\<open>id\<close> and
  \<^verbatim>\<open>text\<close> carry a suffix, the plain names being taken in HOL.
\<close>

record Todo =
  id_todo :: int
  text_todo :: string
  completed :: bool

record TodoState =
  todos :: "Todo list"
  nextId :: int

text \<open>
  The discriminated union \<^verbatim>\<open>TodoAction\<close>, each tag with its payload. \<open>UNKNOWN\<close> stands
  for an action object with any other tag, which the TypeScript type excludes and the
  \<^verbatim>\<open>default\<close> branch of the reducer answers.
\<close>

datatype TodoAction =
    ADD string
  | TOGGLE int
  | DELETE int
  | CLEAR_COMPLETED
  | UNKNOWN

definition todoInitialState :: TodoState where
  "todoInitialState = \<lparr>todos = [], nextId = 1\<rparr>"

text \<open>
  The reducer, one equation per \<^verbatim>\<open>case\<close>; \<open>p\<close> is \<^verbatim>\<open>action.payload\<close>. The spread
  \<^verbatim>\<open>{ ...state, todos: ... }\<close> is a record update.
\<close>

fun todoReducer :: "TodoState \<Rightarrow> TodoAction \<Rightarrow> TodoState" where
  "todoReducer state (ADD p) =
     \<lparr>todos = todos state @ [\<lparr>id_todo = nextId state, text_todo = p, completed = False\<rparr>],
      nextId = nextId state + 1\<rparr>"
| "todoReducer state (TOGGLE p) =
     state\<lparr>todos := map (\<lambda>todo. if id_todo todo = p
                                   then todo\<lparr>completed := \<not> completed todo\<rparr>
                                   else todo) (todos state)\<rparr>"
| "todoReducer state (DELETE p) =
     state\<lparr>todos := filter (\<lambda>todo. id_todo todo \<noteq> p) (todos state)\<rparr>"
| "todoReducer state CLEAR_COMPLETED =
     state\<lparr>todos := filter (\<lambda>todo. \<not> completed todo) (todos state)\<rparr>"
| "todoReducer state UNKNOWN = state"

text \<open>\<^verbatim>\<open>useReducer(todoReducer, todoInitialState)\<close> after a sequence of dispatched actions.\<close>

definition todoDispatch_all :: "TodoAction list \<Rightarrow> TodoState" where
  "todoDispatch_all actions = foldl todoReducer todoInitialState actions"

text \<open>The ids of the todos, in list order, and the invariant on them.\<close>

definition ids :: "TodoState \<Rightarrow> int list" where
  "ids s = map id_todo (todos s)"

definition ids_fresh :: "TodoState \<Rightarrow> bool" where
  "ids_fresh s \<longleftrightarrow> distinct (ids s) \<and> (\<forall>i \<in> set (ids s). i < nextId s)"

section \<open>Registry: helper lemmas\<close>

lemma render_step_eq:
  "render_step r m = (stored m (render_id r) + 1, m(render_id r \<mapsto> stored m (render_id r) + 1))"
  by (cases r) (simp_all add: RenderCounter_def InlineRenderCounter_def stored_def Let_def)

lemma renders_Cons:
  "renders (r # rs) m =
     ((render_id r, stored m (render_id r) + 1)
        # fst (renders rs (m(render_id r \<mapsto> stored m (render_id r) + 1))),
      snd (renders rs (m(render_id r \<mapsto> stored m (render_id r) + 1))))"
  by (simp add: render_step_eq split: prod.splits)

declare renders.simps(2) [simp del]

lemma upt_Suc_shift: "[0..<Suc n] = 0 # map Suc [0..<n]"
  by (simp add: upt_conv_Cons map_Suc_upt del: upt_Suc)

lemma shown_renders:
  "shown i (fst (renders rs m)) = map (\<lambda>k. stored m i + 1 + int k) [0..<renders_of i rs]"
proof (induction rs arbitrary: m)
  case Nil
  show ?case by (simp add: shown_def renders_of_def)
next
  case (Cons r rs)
  let ?m' = "m(render_id r \<mapsto> stored m (render_id r) + 1)"
  have IH: "shown i (fst (renders rs ?m')) =
      map (\<lambda>k. stored ?m' i + 1 + int k) [0..<renders_of i rs]"
    by (rule Cons.IH)
  show ?case
  proof (cases "render_id r = i")
    case True
    have st: "stored ?m' i = stored m i + 1"
      using True by (simp add: stored_def)
    have n: "renders_of i (r # rs) = Suc (renders_of i rs)"
      using True by (simp add: renders_of_def)
    have "shown i (fst (renders (r # rs) m)) =
        (stored m i + 1) # shown i (fst (renders rs ?m'))"
      using True by (simp add: renders_Cons shown_def)
    also have "\<dots> = (stored m i + 1) #
        map (\<lambda>k. stored m i + 1 + 1 + int k) [0..<renders_of i rs]"
      by (simp add: IH st)
    also have "\<dots> = map (\<lambda>k. stored m i + 1 + int k) [0..<Suc (renders_of i rs)]"
      by (simp add: upt_Suc_shift comp_def add.assoc del: upt_Suc)
    finally show ?thesis by (simp only: n)
  next
    case False
    have st: "stored ?m' i = stored m i"
      using False by (simp add: stored_def)
    have n: "renders_of i (r # rs) = renders_of i rs"
      using False by (simp add: renders_of_def)
    have "shown i (fst (renders (r # rs) m)) = shown i (fst (renders rs ?m'))"
      using False by (simp add: renders_Cons shown_def)
    then show ?thesis by (simp add: IH st n)
  qed
qed

lemma stored_init: "stored renderCounts_init i = 0"
  by (simp add: stored_def renderCounts_init_def)

lemma final_store:
  "snd (renders rs m) i =
     (if renders_of i rs = 0 then m i else Some (stored m i + int (renders_of i rs)))"
proof (induction rs arbitrary: m)
  case Nil
  show ?case by (simp add: renders_of_def)
next
  case (Cons r rs)
  let ?m' = "m(render_id r \<mapsto> stored m (render_id r) + 1)"
  have step: "snd (renders (r # rs) m) i = snd (renders rs ?m') i"
    by (simp add: renders_Cons)
  show ?case
  proof (cases "render_id r = i")
    case True
    have st: "stored ?m' i = stored m i + 1" and mi: "?m' i = Some (stored m i + 1)"
      using True by (simp_all add: stored_def)
    have n: "renders_of i (r # rs) = Suc (renders_of i rs)"
      using True by (simp add: renders_of_def)
    have "snd (renders (r # rs) m) i =
        (if renders_of i rs = 0 then ?m' i else Some (stored ?m' i + int (renders_of i rs)))"
      unfolding step by (rule Cons.IH)
    also have "\<dots> = Some (stored m i + int (Suc (renders_of i rs)))"
      unfolding st mi by simp
    finally show ?thesis
      unfolding n by simp
  next
    case False
    have st: "stored ?m' i = stored m i" and mi: "?m' i = m i"
      using False by (simp_all add: stored_def)
    have n: "renders_of i (r # rs) = renders_of i rs"
      using False by (simp add: renders_of_def)
    have "snd (renders (r # rs) m) i =
        (if renders_of i rs = 0 then ?m' i else Some (stored ?m' i + int (renders_of i rs)))"
      unfolding step by (rule Cons.IH)
    then show ?thesis
      unfolding st mi n .
  qed
qed

lemma renders_of_0_iff: "renders_of i rs = 0 \<longleftrightarrow> i \<notin> render_id ` set rs"
  by (auto simp: renders_of_def filter_empty_conv)


section \<open>Registry: the claims\<close>

text \<open>
  Claim C1. One render-time observation of an identity creates the entry at 1 when it is
  absent, otherwise adds exactly 1 to the stored count, and returns the count it stored
  (both counter components do the same). Hence, from the empty store the module starts
  with, the counts shown to the unit with identity \<open>i\<close> over any sequence of renders
  (interleaved with renders of any other units) are exactly 1, 2, 3, ..., one per render
  of that unit.
\<close>

theorem observe_counts_from_one:
  "(m i = None \<longrightarrow> RenderCounter i m = (1, m(i \<mapsto> 1)))
   \<and> (m i = Some c \<longrightarrow> RenderCounter i m = (c + 1, m(i \<mapsto> c + 1)))
   \<and> InlineRenderCounter i m = RenderCounter i m
   \<and> snd (RenderCounter i m) i = Some (fst (RenderCounter i m))
   \<and> shown i (fst (renders rs renderCounts_init)) = map (\<lambda>k. int k + 1) [0..<renders_of i rs]"
proof -
  have "shown i (fst (renders rs renderCounts_init)) = map (\<lambda>k. int k + 1) [0..<renders_of i rs]"
    by (simp add: shown_renders stored_init add.commute)
  then show ?thesis
    by (simp add: RenderCounter_def InlineRenderCounter_def Let_def)
qed

theorem observe_counts_from_one_witness:
  "renderCounts_init ''r1'' = None
   \<and> RenderCounter ''r1'' renderCounts_init = (1, renderCounts_init(''r1'' \<mapsto> 1))
   \<and> [''r1'' \<mapsto> 4] ''r1'' = Some (4::int)
   \<and> RenderCounter ''r1'' [''r1'' \<mapsto> 4] = (5, [''r1'' \<mapsto> 5])
   \<and> shown ''r1'' (fst (renders [Render ''r1'', RenderInline ''r2'', Render ''r1'', Render ''r1'']
        renderCounts_init)) = [1, 2, 3]"
proof -
  have n: "renders_of ''r1'' [Render ''r1'', RenderInline ''r2'', Render ''r1'', Render ''r1''] = 3"
    by (simp add: renders_of_def)
  have u: "[0..<3] = [0, 1, 2]"
    by (simp add: upt_rec)
  show ?thesis
    using observe_counts_from_one
      [of renderCounts_init "''r1''" 0
          "[Render ''r1'', RenderInline ''r2'', Render ''r1'', Render ''r1'']"]
      observe_counts_from_one [of "[''r1'' \<mapsto> 4]" "''r1''" 4 "[]"]
    by (simp add: n u renderCounts_init_def)
qed

text \<open>
  Claim C2. Observing one identity leaves the stored count of every other identity as it
  was, for either counter component; and a whole sequence of renders in which the
  identity \<open>j\<close> does not occur leaves the entry of \<open>j\<close> as it was.
\<close>

theorem distinct_identities_independent:
  "i \<noteq> j \<Longrightarrow>
     snd (RenderCounter i m) j = m j
     \<and> snd (InlineRenderCounter i m) j = m j
     \<and> (j \<notin> render_id ` set rs \<longrightarrow> snd (renders rs m) j = m j)"
  by (simp add: RenderCounter_def InlineRenderCounter_def Let_def final_store renders_of_0_iff)

theorem distinct_identities_independent_witness:
  "''r1'' \<noteq> ''r2''
   \<and> ''r2'' \<notin> render_id ` set [Render ''r1'', RenderInline ''r1'']
   \<and> snd (RenderCounter ''r1'' [''r2'' \<mapsto> 5]) ''r2'' = Some 5
   \<and> snd (InlineRenderCounter ''r1'' [''r2'' \<mapsto> 5]) ''r2'' = Some 5
   \<and> snd (renders [Render ''r1'', RenderInline ''r1''] [''r2'' \<mapsto> 5]) ''r2'' = Some 5"
proof -
  have ne: "''r1'' \<noteq> ''r2''" by simp
  show ?thesis
    using distinct_identities_independent
      [OF ne, of "[''r2'' \<mapsto> 5]" "[Render ''r1'', RenderInline ''r1'']"]
    by simp
qed

text \<open>
  Claim C3. The registry is only read and written, never deleted from: one observation
  and any sequence of observations keep every identity that was present, and an identity
  observed at some point of a run from the empty store is still present after any further
  renders, with a positive count (the number of its renders so far).
\<close>

theorem registry_only_grows:
  "dom m \<subseteq> dom (snd (RenderCounter i m))
   \<and> dom m \<subseteq> dom (snd (InlineRenderCounter i m))
   \<and> dom m \<subseteq> dom (snd (renders rs m))
   \<and> (i \<in> render_id ` set rs \<longrightarrow>
        snd (renders (rs @ rs') renderCounts_init) i = Some (int (renders_of i (rs @ rs')))
        \<and> 0 < int (renders_of i (rs @ rs')))"
proof -
  have a: "dom m \<subseteq> dom (snd (renders rs m))"
    by (auto simp: final_store)
  have b: "snd (renders (rs @ rs') renderCounts_init) i = Some (int (renders_of i (rs @ rs')))
      \<and> 0 < int (renders_of i (rs @ rs'))" if "i \<in> render_id ` set rs"
  proof -
    have "i \<in> render_id ` set (rs @ rs')"
      using that by auto
    then have "renders_of i (rs @ rs') \<noteq> 0"
      by (simp only: renders_of_0_iff not_not)
    then show ?thesis
      by (simp add: final_store stored_init)
  qed
  show ?thesis
    using a b by (auto simp: RenderCounter_def InlineRenderCounter_def Let_def)
qed

theorem registry_only_grows_witness:
  "''r1'' \<in> render_id ` set [Render ''r1'']
   \<and> dom [''r0'' \<mapsto> 2] \<subseteq> dom (snd (renders [Render ''r1''] [''r0'' \<mapsto> 2]))
   \<and> snd (renders ([Render ''r1''] @ [RenderInline ''r2'', Render ''r1'']) renderCounts_init) ''r1''
       = Some 2"
proof -
  have n: "renders_of ''r1'' [Render ''r1'', RenderInline ''r2'', Render ''r1''] = 2"
    by (simp add: renders_of_def)
  show ?thesis
    using registry_only_grows
      [of "[''r0'' \<mapsto> 2]" "''r1''" "[Render ''r1'']" "[RenderInline ''r2'', Render ''r1'']"]
    by (simp add: n)
qed

section \<open>Theme context: persistence and accessors\<close>

lemma persisted_effect: "persisted (theme_effect s)"
  by (simp add: persisted_def theme_effect_def)

lemma persisted_setThemeState: "persisted s \<Longrightarrow> persisted (setThemeState f s)"
  by (simp add: setThemeState_def Let_def persisted_effect)

lemma persisted_not_falsy: "persisted s \<Longrightarrow> \<not> falsy (localStorage s THEME_STORAGE_KEY)"
  by (cases "themeState s") (simp_all add: persisted_def falsy_def)

lemma handleChange_persisted: "persisted s \<Longrightarrow> handleChange matches s = s"
  by (simp add: handleChange_def Let_def persisted_not_falsy)

lemma persisted_op: "persisted s \<Longrightarrow> persisted (theme_op s op)"
  by (cases op) (simp_all add: ThemeProvider_toggleTheme_def ThemeProvider_setTheme_def persisted_setThemeState handleChange_persisted)

lemma persisted_ops: "persisted s \<Longrightarrow> persisted (theme_ops s ops)"
  unfolding theme_ops_def
  by (induction ops arbitrary: s) (simp_all add: persisted_op)

lemma persisted_mount: "persisted (ThemeProvider_mount ls pd cl)"
  by (simp add: ThemeProvider_mount_def persisted_effect)

lemma themeState_setThemeState: "themeState (setThemeState f s) = f (themeState s)"
  by (simp add: setThemeState_def Let_def theme_effect_def)

lemma themeState_op: "persisted s \<Longrightarrow> themeState (theme_op s op) = requested (themeState s) op"
  by (cases op) (simp_all add: ThemeProvider_toggleTheme_def ThemeProvider_setTheme_def themeState_setThemeState handleChange_persisted)

text \<open>
  Claim C5. Toggling the theme twice gives back the theme there was. After mounting the
  provider and any sequence of toggles, explicit settings and system-preference events,
  the storage key holds the string of the current theme, and the current theme is the one
  the last operation asked for.
\<close>

theorem toggle_involution_and_persistence:
  "themeState (ThemeProvider_toggleTheme (ThemeProvider_toggleTheme s)) = themeState s
   \<and> localStorage (theme_ops (ThemeProvider_mount ls pd cl) ops) THEME_STORAGE_KEY
       = Some (theme_string (themeState (theme_ops (ThemeProvider_mount ls pd cl) ops)))
   \<and> themeState (theme_ops (ThemeProvider_mount ls pd cl) (ops @ [op]))
       = requested (themeState (theme_ops (ThemeProvider_mount ls pd cl) ops)) op"
proof -
  have a: "themeState (ThemeProvider_toggleTheme (ThemeProvider_toggleTheme s)) = themeState s"
    by (cases "themeState s") (simp_all add: ThemeProvider_toggleTheme_def themeState_setThemeState)
  have p: "persisted (theme_ops (ThemeProvider_mount ls pd cl) ops)"
    by (simp add: persisted_ops persisted_mount)
  have c: "themeState (theme_ops (ThemeProvider_mount ls pd cl) (ops @ [op]))
       = requested (themeState (theme_ops (ThemeProvider_mount ls pd cl) ops)) op"
    using themeState_op [OF p, of op] by (simp add: theme_ops_def)
  from a p c show ?thesis by (simp add: persisted_def)
qed

text \<open>
  Claim C6. \<^verbatim>\<open>useTheme\<close> throws exactly when the context value is undefined, which for
  units under \<^verbatim>\<open>ThemeProvider\<close>s is exactly when there is no enclosing provider; inside a
  provider it returns the value of the nearest one. The accessor of the context demo
  behaves the same way.
\<close>

theorem useTheme_throws_iff_outside:
  "(isl (useTheme providers) \<longleftrightarrow> useContext ThemeContext_default providers = None)
   \<and> useTheme [] = Inl (Error ''useTheme must be used within a ThemeProvider'')
   \<and> useTheme (Some v # outer) = Inr v
   \<and> (isl (useTheme (inside_ThemeProviders enclosing)) \<longleftrightarrow> enclosing = [])
   \<and> useTheme (inside_ThemeProviders (s # enclosing)) = Inr (ThemeProvider_value s)
   \<and> useExampleUser [] = Inl (Error ''useExampleUser must be used within ExampleUserProvider'')
   \<and> useExampleUser (Some u # others) = Inr u"
proof -
  have a: "isl (useTheme providers) \<longleftrightarrow> useContext ThemeContext_default providers = None"
    by (simp add: useTheme_def Let_def split: option.splits)
  have b: "isl (useTheme (inside_ThemeProviders enclosing)) \<longleftrightarrow> enclosing = []"
    by (cases enclosing)
      (simp_all add: useTheme_def useContext_def inside_ThemeProviders_def ThemeContext_default_def)
  have c: "useTheme [] = Inl (Error ''useTheme must be used within a ThemeProvider'')
      \<and> useTheme (Some v # outer) = Inr v
      \<and> useTheme (inside_ThemeProviders (s # enclosing)) = Inr (ThemeProvider_value s)"
    by (simp add: useTheme_def useContext_def inside_ThemeProviders_def ThemeContext_default_def)
  have d: "useExampleUser [] = Inl (Error ''useExampleUser must be used within ExampleUserProvider'')
      \<and> useExampleUser (Some u # others) = Inr u"
    by (simp add: useExampleUser_def useContext_def ExampleUserContext_default_def)
  from a b c d show ?thesis by blast
qed

text \<open>
  Claim C7. In a browser, the initial theme is read under the key
  \<^verbatim>\<open>reacthookstudio-theme\<close>: a stored \<^verbatim>\<open>light\<close> or \<^verbatim>\<open>dark\<close> is returned, and with the
  key absent the result is dark when the system prefers dark and light otherwise.
\<close>

theorem getInitialTheme_stored_or_system:
  "(ls THEME_STORAGE_KEY = Some ''light'' \<longrightarrow> getInitialTheme (Window ls prefersDark) = Light)
   \<and> (ls THEME_STORAGE_KEY = Some ''dark'' \<longrightarrow> getInitialTheme (Window ls prefersDark) = Dark)
   \<and> (ls THEME_STORAGE_KEY = Some v \<and> (v = ''light'' \<or> v = ''dark'') \<longrightarrow>
        theme_string (getInitialTheme (Window ls prefersDark)) = v)
   \<and> (ls THEME_STORAGE_KEY = None \<longrightarrow>
        getInitialTheme (Window ls prefersDark) = (if prefersDark then Dark else Light))
   \<and> THEME_STORAGE_KEY = ''reacthookstudio-theme''"
  by (auto simp: Let_def THEME_STORAGE_KEY_def)

theorem getInitialTheme_stored_or_system_witness:
  "[THEME_STORAGE_KEY \<mapsto> ''dark''] THEME_STORAGE_KEY = Some ''dark''
   \<and> getInitialTheme (Window [THEME_STORAGE_KEY \<mapsto> ''dark''] False) = Dark
   \<and> Map.empty THEME_STORAGE_KEY = (None :: string option)
   \<and> getInitialTheme (Window Map.empty True) = Dark
   \<and> getInitialTheme (Window Map.empty False) = Light"
  using getInitialTheme_stored_or_system [of "[THEME_STORAGE_KEY \<mapsto> ''dark'']" False "''dark''"]
    getInitialTheme_stored_or_system [of Map.empty True "''dark''"]
    getInitialTheme_stored_or_system [of Map.empty False "''dark''"]
  by simp

theorem toggle_involution_and_persistence_witness:
  "themeState (ThemeProvider_toggleTheme (ThemeProvider_toggleTheme
       (ThemeProvider_mount Map.empty True {}))) = Dark
   \<and> localStorage (theme_ops (ThemeProvider_mount Map.empty True {})
        [ToggleTheme, ToggleTheme, SetTheme Light]) THEME_STORAGE_KEY = Some ''light''"
proof -
  have m: "themeState (ThemeProvider_mount Map.empty True {}) = Dark"
    by (simp add: ThemeProvider_mount_def theme_effect_def)
  have t: "themeState (theme_ops (ThemeProvider_mount Map.empty True {})
        [ToggleTheme, ToggleTheme, SetTheme Light]) = Light"
    using toggle_involution_and_persistence
      [of "ThemeProvider_mount Map.empty True {}" Map.empty True "{}"
          "[ToggleTheme, ToggleTheme]" "SetTheme Light"]
    by simp
  show ?thesis
    using toggle_involution_and_persistence
      [of "ThemeProvider_mount Map.empty True {}" Map.empty True "{}"
          "[ToggleTheme, ToggleTheme, SetTheme Light]" ToggleTheme]
    by (simp add: m t)
qed

theorem useTheme_throws_iff_outside_witness:
  "isl (useTheme (inside_ThemeProviders []))
   \<and> useTheme (inside_ThemeProviders [ThemeProvider_mount Map.empty False {}])
       = Inr (ThemeProvider_value (ThemeProvider_mount Map.empty False {}))"
  using useTheme_throws_iff_outside
    [of "[]" "ThemeProvider_value (ThemeProvider_mount Map.empty False {})" "[]" "[]"
        "ThemeProvider_mount Map.empty False {}"
        "\<lparr>name = ''Jane Doe'', email = ''jane@reacthooksstudio.dev'', role = Admin\<rparr>" "[]"]
  by simp

section \<open>Navigation: declared paths and the catch-all\<close>










section \<open>Timer demo: no tick after the stop\<close>

declare String.simps [simp del]

lemma scheduled_mount: "0 < h0 \<Longrightarrow> scheduled (mount h0)"
  by (simp add: scheduled_def mount_def timer_effect_def)

lemma scheduled_step: "scheduled s \<Longrightarrow> scheduled (timer_step s e)"
proof (cases e)
  case ClickStartStop
  assume "scheduled s"
  then show ?thesis
    using ClickStartStop
    by (auto simp: scheduled_def commit_def timer_effect_def timer_cleanup_def
        setInterval_def clearInterval_def split: option.splits if_splits)
next
  case ClickReset
  assume "scheduled s"
  then show ?thesis
    using ClickReset
    by (auto simp: scheduled_def commit_def timer_effect_def timer_cleanup_def
        setInterval_def clearInterval_def split: option.splits if_splits)
next
  case (Tick h)
  assume "scheduled s"
  then show ?thesis
    using Tick by (auto simp: scheduled_def split: option.splits)
next
  case Unmount
  assume "scheduled s"
  then show ?thesis
    using Unmount
    by (auto simp: scheduled_def timer_cleanup_def clearInterval_def split: option.splits if_splits)
qed

lemma scheduled_run: "scheduled s \<Longrightarrow> scheduled (timer_run s evs)"
  unfolding timer_run_def
  by (induction evs arbitrary: s) (simp_all add: scheduled_step)

lemma scheduled_off: "scheduled s \<Longrightarrow> \<not> isRunning s \<or> \<not> mounted s \<Longrightarrow> timers s = {}"
  by (auto simp: scheduled_def split: if_splits)

lemma ticks_without_timer: "timers s = {} \<Longrightarrow> timer_run s (map Tick hs) = s"
  unfolding timer_run_def
  by (induction hs) simp_all

lemma ticks_with_timer:
  "h \<in> timers s \<Longrightarrow> timer_run s (replicate n (Tick h)) = s\<lparr>seconds := seconds s + n\<rparr>"
  unfolding timer_run_def
  by (induction n arbitrary: s) simp_all

lemma timer_run_append: "timer_run s (xs @ ys) = timer_run (timer_run s xs) ys"
  by (simp add: timer_run_def)

lemma timer_run_Cons: "timer_run s (x # xs) = timer_run (timer_step s x) xs"
  by (simp add: timer_run_def)

lemma timer_run_single: "timer_run s [x] = timer_step s x"
  by (simp add: timer_run_def)

lemma started:
  "timer_step (mount h0) ClickStartStop =
     \<lparr>seconds = 0, isRunning = True, interval = Some h0, timers = {h0},
      nextHandle = h0 + 1, mounted = True\<rparr>"
  by (simp add: mount_def timer_effect_def commit_def timer_cleanup_def setInterval_def)

lemma after_n_ticks:
  "timer_run (mount h0) (ClickStartStop # replicate n (Tick h0)) =
     \<lparr>seconds = n, isRunning = True, interval = Some h0, timers = {h0},
      nextHandle = h0 + 1, mounted = True\<rparr>"
  by (simp add: timer_run_Cons started ticks_with_timer del: timer_step.simps)

lemma stopped_after_n:
  "0 < h0 \<Longrightarrow>
   timer_run (mount h0) (ClickStartStop # replicate n (Tick h0) @ [ClickStartStop]) =
     \<lparr>seconds = n, isRunning = False, interval = None, timers = {},
      nextHandle = h0 + 1, mounted = True\<rparr>"
  by (simp add: timer_run_append [of _ "ClickStartStop # replicate n (Tick h0)" "[ClickStartStop]", simplified]
      after_n_ticks timer_run_single commit_def timer_effect_def timer_cleanup_def clearInterval_def)

lemma unmounted_after_n:
  "0 < h0 \<Longrightarrow>
   timer_run (mount h0) (ClickStartStop # replicate n (Tick h0) @ [Unmount]) =
     \<lparr>seconds = n, isRunning = True, interval = Some h0, timers = {},
      nextHandle = h0 + 1, mounted = False\<rparr>"
  by (simp add: timer_run_append [of _ "ClickStartStop # replicate n (Tick h0)" "[Unmount]", simplified]
      after_n_ticks timer_run_single timer_cleanup_def clearInterval_def)

lemma length_String: "k < 100 \<Longrightarrow> length (padStart 2 c (String k)) = 2"
proof (cases "k < 10")
  case True
  then show ?thesis by (simp add: String.simps padStart_def)
next
  case False
  assume "k < 100"
  then have "k div 10 < 10" by simp
  then have "String k = [digit (k div 10), digit (k mod 10)]"
    using False by (simp add: String.simps [of k] String.simps [of "k div 10"])
  then show ?thesis by (simp add: padStart_def)
qed

lemma length_formatted: "n < 6000 \<Longrightarrow> length (formatted n) = 5"
proof -
  assume "n < 6000"
  then have "n div 60 < 100" by simp
  moreover have "n mod 60 < 100"
    using mod_less_divisor [of 60 n] by simp
  ultimately show ?thesis
    by (simp add: formatted_def length_String)
qed

lemma formatted_3: "formatted 3 = ''00:03''"
  by (simp add: formatted_def padStart_def String.simps digit_def)

text \<open>
  Claim C4. With interval handles positive, as browsers give them: after any sequence of
  clicks, ticks and a teardown, whenever the running flag is off or the component is torn
  down no interval is scheduled, and whatever ticks follow leave the state as it is.
  Starting the timer, letting \<open>n\<close> ticks of its interval occur and then stopping (or
  tearing down) leaves the elapsed seconds at \<open>n\<close> under any later ticks, displayed as
  zero-padded minutes:seconds (five characters below 100 minutes), \<open>00:03\<close> for
  \<open>n = 3\<close>.
\<close>

theorem timer_stable_after_stop:
  assumes "0 < h0"
  shows "(\<not> isRunning (timer_run (mount h0) evs) \<or> \<not> mounted (timer_run (mount h0) evs) \<longrightarrow>
            timers (timer_run (mount h0) evs) = {}
            \<and> timer_run (timer_run (mount h0) evs) (map Tick hs) = timer_run (mount h0) evs)
    \<and> seconds (timer_run (mount h0)
          (ClickStartStop # replicate n (Tick h0) @ [ClickStartStop] @ map Tick hs)) = n
    \<and> display (timer_run (mount h0)
          (ClickStartStop # replicate n (Tick h0) @ [ClickStartStop] @ map Tick hs)) = formatted n
    \<and> display (timer_run (mount h0)
          (ClickStartStop # replicate n (Tick h0) @ [Unmount] @ map Tick hs)) = formatted n
    \<and> (n < 6000 \<longrightarrow> length (formatted n) = 5)
    \<and> display (timer_run (mount h0)
          (ClickStartStop # replicate 3 (Tick h0) @ [ClickStartStop] @ map Tick hs)) = ''00:03''"
proof -
  let ?s = "timer_run (mount h0) evs"
  have sch: "scheduled ?s"
    using assms by (simp add: scheduled_run scheduled_mount)
  have a: "\<not> isRunning ?s \<or> \<not> mounted ?s \<longrightarrow>
      timers ?s = {} \<and> timer_run ?s (map Tick hs) = ?s"
    using scheduled_off [OF sch] ticks_without_timer [of ?s hs] by blast
  have stop: "timer_run (mount h0)
        (ClickStartStop # replicate k (Tick h0) @ [ClickStartStop] @ map Tick hs)
      = \<lparr>seconds = k, isRunning = False, interval = None, timers = {},
         nextHandle = h0 + 1, mounted = True\<rparr>" for k
  proof -
    have "timer_run (mount h0)
        (ClickStartStop # replicate k (Tick h0) @ [ClickStartStop] @ map Tick hs)
      = timer_run (timer_run (mount h0)
          (ClickStartStop # replicate k (Tick h0) @ [ClickStartStop])) (map Tick hs)"
      using timer_run_append
        [of "mount h0" "ClickStartStop # replicate k (Tick h0) @ [ClickStartStop]" "map Tick hs"]
      by simp
    then show ?thesis
      using assms by (simp add: stopped_after_n ticks_without_timer)
  qed
  have unm: "timer_run (mount h0)
        (ClickStartStop # replicate n (Tick h0) @ [Unmount] @ map Tick hs)
      = \<lparr>seconds = n, isRunning = True, interval = Some h0, timers = {},
         nextHandle = h0 + 1, mounted = False\<rparr>"
  proof -
    have "timer_run (mount h0)
        (ClickStartStop # replicate n (Tick h0) @ [Unmount] @ map Tick hs)
      = timer_run (timer_run (mount h0)
          (ClickStartStop # replicate n (Tick h0) @ [Unmount])) (map Tick hs)"
      using timer_run_append
        [of "mount h0" "ClickStartStop # replicate n (Tick h0) @ [Unmount]" "map Tick hs"]
      by simp
    then show ?thesis
      using assms by (simp add: unmounted_after_n ticks_without_timer)
  qed
  have b: "seconds (timer_run (mount h0)
          (ClickStartStop # replicate n (Tick h0) @ [ClickStartStop] @ map Tick hs)) = n"
    by (simp only: stop) simp
  have fmt: "display (timer_run (mount h0)
          (ClickStartStop # replicate k (Tick h0) @ [ClickStartStop] @ map Tick hs)) = formatted k"
    for k
    by (simp only: stop) (simp add: display_def formatted_def)
  note c = fmt [of n]
  have d: "display (timer_run (mount h0)
          (ClickStartStop # replicate n (Tick h0) @ [Unmount] @ map Tick hs)) = formatted n"
    by (simp only: unm) (simp add: display_def formatted_def)
  have e: "display (timer_run (mount h0)
          (ClickStartStop # replicate 3 (Tick h0) @ [ClickStartStop] @ map Tick hs)) = ''00:03''"
    by (simp only: fmt formatted_3)
  have f: "n < 6000 \<longrightarrow> length (formatted n) = 5"
    by (simp add: length_formatted)
  from a b c d e f show ?thesis by blast
qed

theorem timer_stable_after_stop_witness:
  "(0::nat) < 1
   \<and> \<not> isRunning (timer_run (mount 1) [ClickStartStop, Tick 1, ClickStartStop])
   \<and> timers (timer_run (mount 1) [ClickStartStop, Tick 1, ClickStartStop]) = {}
   \<and> timer_run (timer_run (mount 1) [ClickStartStop, Tick 1, ClickStartStop]) (map Tick [1, 2, 1])
       = timer_run (mount 1) [ClickStartStop, Tick 1, ClickStartStop]
   \<and> (3::nat) < 6000 \<and> length (formatted 3) = 5
   \<and> display (timer_run (mount 1)
        (ClickStartStop # replicate 3 (Tick 1) @ [ClickStartStop] @ map Tick [1, 2, 1])) = ''00:03''
   \<and> seconds (timer_run (mount 1)
        (ClickStartStop # replicate 3 (Tick 1) @ [ClickStartStop] @ map Tick [1, 2, 1])) = 3"
proof -
  have h: "(0::nat) < 1" by simp
  have off: "\<not> isRunning (timer_run (mount 1) [ClickStartStop, Tick 1, ClickStartStop])"
    by (simp add: timer_run_def mount_def timer_effect_def commit_def timer_cleanup_def
        setInterval_def clearInterval_def)
  have small: "(3::nat) < 6000" by simp
  from timer_stable_after_stop [OF h, of "[ClickStartStop, Tick 1, ClickStartStop]" "[1, 2, 1]" 3]
    h off small
  show ?thesis by blast
qed

section \<open>Counter reducer: invariant\<close>

lemma counterReducer_tracks:
  "history_tracks_count s \<Longrightarrow> history_tracks_count (counterReducer s a)"
  by (simp add: history_tracks_count_def counterReducer_def initialState_def)

lemma counterReducer_length:
  "length (history (counterReducer s a)) = count_update (length (history s)) a"
  by (simp add: counterReducer_def count_update_def records_update_def initialState_def)

lemma dispatch_all_snoc: "dispatch_all (as @ [a]) = counterReducer (dispatch_all as) a"
  by (simp add: dispatch_all_def)

lemma dispatch_all_tracks: "history_tracks_count (dispatch_all as)"
proof (induction as rule: rev_induct)
  case Nil
  show ?case by (simp add: dispatch_all_def history_tracks_count_def initialState_def)
next
  case (snoc a as)
  then show ?case by (simp only: dispatch_all_snoc counterReducer_tracks)
qed

lemma dispatch_all_length: "length (history (dispatch_all as)) = updates_since_reset as"
proof (induction as rule: rev_induct)
  case Nil
  show ?case by (simp add: dispatch_all_def updates_since_reset_def initialState_def)
next
  case (snoc a as)
  have "length (history (dispatch_all (as @ [a]))) = count_update (length (history (dispatch_all as))) a"
    by (simp only: dispatch_all_snoc counterReducer_length)
  also have "\<dots> = updates_since_reset (as @ [a])"
    by (simp add: snoc.IH updates_since_reset_def)
  finally show ?case .
qed

text \<open>
  Claim C9. After every sequence of actions dispatched from the initial state, the history
  is empty exactly when no update has been recorded since the last RESET (and then the
  count is 0), and otherwise its last element is the current count. INCREMENT, DECREMENT
  and SET each append the new count to the history, a SET without payload sets the count
  to 0, RESET gives back the initial state, and an action with any other tag leaves the
  state as it was.
\<close>

theorem counterReducer_history_invariant:
  "(history (dispatch_all actions) = [] \<longleftrightarrow> updates_since_reset actions = 0)
   \<and> (history (dispatch_all actions) = [] \<longrightarrow> count (dispatch_all actions) = 0)
   \<and> (history (dispatch_all actions) \<noteq> [] \<longrightarrow>
        last (history (dispatch_all actions)) = count (dispatch_all actions))
   \<and> (type a = ''INCREMENT'' \<longrightarrow>
        counterReducer s a = \<lparr>count = count s + 1, history = history s @ [count s + 1]\<rparr>)
   \<and> (type a = ''DECREMENT'' \<longrightarrow>
        counterReducer s a = \<lparr>count = count s - 1, history = history s @ [count s - 1]\<rparr>)
   \<and> (type a = ''SET'' \<and> payload a = Some v \<longrightarrow>
        counterReducer s a = \<lparr>count = v, history = history s @ [v]\<rparr>)
   \<and> (type a = ''SET'' \<and> payload a = None \<longrightarrow>
        counterReducer s a = \<lparr>count = 0, history = history s @ [0]\<rparr>)
   \<and> (type a = ''RESET'' \<longrightarrow> counterReducer s a = initialState)
   \<and> (type a \<notin> {''INCREMENT'', ''DECREMENT'', ''RESET'', ''SET''} \<longrightarrow> counterReducer s a = s)"
proof -
  have e: "history (dispatch_all actions) = [] \<longleftrightarrow> updates_since_reset actions = 0"
    using dispatch_all_length [of actions] by (simp only: length_0_conv [symmetric])
  have t: "(history (dispatch_all actions) = [] \<longrightarrow> count (dispatch_all actions) = 0)
      \<and> (history (dispatch_all actions) \<noteq> [] \<longrightarrow>
        last (history (dispatch_all actions)) = count (dispatch_all actions))"
    using dispatch_all_tracks [of actions] by (simp add: history_tracks_count_def split: if_splits)
  have r: "(type a = ''INCREMENT'' \<longrightarrow>
        counterReducer s a = \<lparr>count = count s + 1, history = history s @ [count s + 1]\<rparr>)
   \<and> (type a = ''DECREMENT'' \<longrightarrow>
        counterReducer s a = \<lparr>count = count s - 1, history = history s @ [count s - 1]\<rparr>)
   \<and> (type a = ''SET'' \<and> payload a = Some v \<longrightarrow>
        counterReducer s a = \<lparr>count = v, history = history s @ [v]\<rparr>)
   \<and> (type a = ''SET'' \<and> payload a = None \<longrightarrow>
        counterReducer s a = \<lparr>count = 0, history = history s @ [0]\<rparr>)
   \<and> (type a = ''RESET'' \<longrightarrow> counterReducer s a = initialState)
   \<and> (type a \<notin> {''INCREMENT'', ''DECREMENT'', ''RESET'', ''SET''} \<longrightarrow> counterReducer s a = s)"
    by (simp add: counterReducer_def nullish_def)
  from e t r show ?thesis by blast
qed

theorem counterReducer_history_invariant_witness:
  "history (dispatch_all [\<lparr>type = ''SET'', payload = None\<rparr>, \<lparr>type = ''INCREMENT'', payload = None\<rparr>,
       \<lparr>type = ''NOOP'', payload = Some 7\<rparr>]) \<noteq> []
   \<and> last (history (dispatch_all [\<lparr>type = ''SET'', payload = None\<rparr>,
       \<lparr>type = ''INCREMENT'', payload = None\<rparr>, \<lparr>type = ''NOOP'', payload = Some 7\<rparr>])) = 1
   \<and> count (dispatch_all [\<lparr>type = ''SET'', payload = None\<rparr>,
       \<lparr>type = ''INCREMENT'', payload = None\<rparr>, \<lparr>type = ''NOOP'', payload = Some 7\<rparr>]) = 1
   \<and> history (dispatch_all [\<lparr>type = ''SET'', payload = Some 10\<rparr>, \<lparr>type = ''RESET'', payload = None\<rparr>]) = []
   \<and> counterReducer initialState \<lparr>type = ''SET'', payload = None\<rparr> = \<lparr>count = 0, history = [0]\<rparr>
   \<and> counterReducer \<lparr>count = 4, history = [4]\<rparr> \<lparr>type = ''NOOP'', payload = Some 7\<rparr>
       = \<lparr>count = 4, history = [4]\<rparr>"
proof -
  have c: "count (dispatch_all [\<lparr>type = ''SET'', payload = None\<rparr>,
       \<lparr>type = ''INCREMENT'', payload = None\<rparr>, \<lparr>type = ''NOOP'', payload = Some 7\<rparr>]) = 1"
    by (simp add: dispatch_all_def counterReducer_def nullish_def initialState_def)
  have u: "updates_since_reset [\<lparr>type = ''SET'', payload = None\<rparr>,
       \<lparr>type = ''INCREMENT'', payload = None\<rparr>, \<lparr>type = ''NOOP'', payload = Some 7\<rparr>] = 2"
       "updates_since_reset [\<lparr>type = ''SET'', payload = Some 10\<rparr>, \<lparr>type = ''RESET'', payload = None\<rparr>] = 0"
    by (simp_all add: updates_since_reset_def count_update_def records_update_def)
  show ?thesis
    using counterReducer_history_invariant
        [of "[\<lparr>type = ''SET'', payload = None\<rparr>, \<lparr>type = ''INCREMENT'', payload = None\<rparr>,
              \<lparr>type = ''NOOP'', payload = Some 7\<rparr>]"
            "\<lparr>type = ''SET'', payload = None\<rparr>" initialState 0]
      counterReducer_history_invariant
        [of "[\<lparr>type = ''SET'', payload = Some 10\<rparr>, \<lparr>type = ''RESET'', payload = None\<rparr>]"
            "\<lparr>type = ''NOOP'', payload = Some 7\<rparr>" "\<lparr>count = 4, history = [4]\<rparr>" 0]
    by (simp add: c u initialState_def)
qed

section \<open>Todo reducer: invariant\<close>

lemma ids_TOGGLE: "ids (todoReducer s (TOGGLE p)) = ids s"
  by (simp add: ids_def comp_def if_distrib cong: if_cong)

lemma ids_fresh_step: "ids_fresh s \<Longrightarrow> ids_fresh (todoReducer s a)"
proof (cases a)
  case (ADD p)
  assume "ids_fresh s"
  then show ?thesis
    using ADD by (auto simp: ids_fresh_def ids_def)
next
  case (TOGGLE p)
  assume "ids_fresh s"
  then have "distinct (ids s) \<and> (\<forall>i \<in> set (ids s). i < nextId s)"
    by (simp add: ids_fresh_def)
  then have "distinct (ids (todoReducer s (TOGGLE p)))
      \<and> (\<forall>i \<in> set (ids (todoReducer s (TOGGLE p))). i < nextId s)"
    by (simp add: ids_TOGGLE del: todoReducer.simps)
  then show ?thesis
    using TOGGLE by (simp add: ids_fresh_def del: todoReducer.simps) simp
next
  case (DELETE p)
  assume "ids_fresh s"
  then show ?thesis
    using DELETE by (auto simp: ids_fresh_def ids_def distinct_map_filter)
next
  case CLEAR_COMPLETED
  assume "ids_fresh s"
  then show ?thesis
    using CLEAR_COMPLETED by (auto simp: ids_fresh_def ids_def distinct_map_filter)
next
  case UNKNOWN
  assume "ids_fresh s"
  then show ?thesis
    using UNKNOWN by simp
qed

lemma todoDispatch_all_fresh: "ids_fresh (todoDispatch_all as)"
proof (induction as rule: rev_induct)
  case Nil
  show ?case by (simp add: todoDispatch_all_def ids_fresh_def ids_def todoInitialState_def)
next
  case (snoc a as)
  then show ?case by (simp add: todoDispatch_all_def ids_fresh_step)
qed

text \<open>
  Claim C10. After every sequence of actions dispatched from the initial todo state, the
  ids of the todos are pairwise distinct and each is strictly less than \<open>nextId\<close>. ADD
  gives the new todo the current \<open>nextId\<close> and increments \<open>nextId\<close>; TOGGLE keeps the
  list of ids and \<open>nextId\<close>; DELETE and CLEAR_COMPLETED keep \<open>nextId\<close> and only drop
  todos, the remaining ones being unchanged and in their order.
\<close>

theorem todoReducer_ids_invariant:
  "distinct (ids (todoDispatch_all actions))
   \<and> (\<forall>i \<in> set (ids (todoDispatch_all actions)). i < nextId (todoDispatch_all actions))
   \<and> ids (todoReducer s (ADD p)) = ids s @ [nextId s]
   \<and> nextId (todoReducer s (ADD p)) = nextId s + 1
   \<and> ids (todoReducer s (TOGGLE k)) = ids s
   \<and> nextId (todoReducer s (TOGGLE k)) = nextId s
   \<and> subseq (ids (todoReducer s (DELETE k))) (ids s)
   \<and> set (todos (todoReducer s (DELETE k))) \<subseteq> set (todos s)
   \<and> nextId (todoReducer s (DELETE k)) = nextId s
   \<and> subseq (ids (todoReducer s CLEAR_COMPLETED)) (ids s)
   \<and> set (todos (todoReducer s CLEAR_COMPLETED)) \<subseteq> set (todos s)
   \<and> nextId (todoReducer s CLEAR_COMPLETED) = nextId s"
proof -
  have inv: "distinct (ids (todoDispatch_all actions))
      \<and> (\<forall>i \<in> set (ids (todoDispatch_all actions)). i < nextId (todoDispatch_all actions))"
    using todoDispatch_all_fresh [of actions] by (simp add: ids_fresh_def)
  have add: "ids (todoReducer s (ADD p)) = ids s @ [nextId s]
      \<and> nextId (todoReducer s (ADD p)) = nextId s + 1"
    by (simp add: ids_def)
  have tog: "ids (todoReducer s (TOGGLE k)) = ids s \<and> nextId (todoReducer s (TOGGLE k)) = nextId s"
    by (simp add: ids_TOGGLE del: todoReducer.simps) simp
  have del: "subseq (ids (todoReducer s (DELETE k))) (ids s)
      \<and> set (todos (todoReducer s (DELETE k))) \<subseteq> set (todos s)
      \<and> nextId (todoReducer s (DELETE k)) = nextId s"
    by (auto simp: ids_def subseq_map)
  have clr: "subseq (ids (todoReducer s CLEAR_COMPLETED)) (ids s)
      \<and> set (todos (todoReducer s CLEAR_COMPLETED)) \<subseteq> set (todos s)
      \<and> nextId (todoReducer s CLEAR_COMPLETED) = nextId s"
    by (auto simp: ids_def subseq_map)
  from inv add tog del clr show ?thesis by blast
qed


theorem todoReducer_ids_invariant_witness:
  "ids (todoDispatch_all [ADD ''a'', ADD ''b'', TOGGLE 1, ADD ''c'', DELETE 2, CLEAR_COMPLETED, ADD ''d''])
     = [3, 4]
   \<and> nextId (todoDispatch_all
       [ADD ''a'', ADD ''b'', TOGGLE 1, ADD ''c'', DELETE 2, CLEAR_COMPLETED, ADD ''d'']) = 5
   \<and> distinct [3, 4 :: int] \<and> (3::int) < 5 \<and> (4::int) < 5"
proof -
  have v: "todoDispatch_all
      [ADD ''a'', ADD ''b'', TOGGLE 1, ADD ''c'', DELETE 2, CLEAR_COMPLETED, ADD ''d'']
    = \<lparr>todos = [\<lparr>id_todo = 3, text_todo = ''c'', completed = False\<rparr>,
                 \<lparr>id_todo = 4, text_todo = ''d'', completed = False\<rparr>], nextId = 5\<rparr>"
    by (simp add: todoDispatch_all_def todoInitialState_def)
  show ?thesis
    using todoReducer_ids_invariant
      [of "[ADD ''a'', ADD ''b'', TOGGLE 1, ADD ''c'', DELETE 2, CLEAR_COMPLETED, ADD ''d'']"
          todoInitialState "''a''" 1]
    by (simp add: v ids_def)
qed

end
